theory Spec2Isabelle
  imports Main
begin

section \<open>Values, graph entities and query records\<close>

text \<open>
  The routes of \<^verbatim>\<open>app.py\<close> read dynamically typed values out of the graph store. The
  model keeps the three kinds the code distinguishes: \<^verbatim>\<open>None\<close>, \<^verbatim>\<open>str\<close> and \<^verbatim>\<open>int\<close>
  (floats, booleans, lists and temporal values are left out). Strings are HOL strings; a
  code point outside ASCII is its UTF-8 byte sequence.
\<close>

datatype pyval = PNone | PStr string | PInt int

text \<open>Python's truth test (\<^verbatim>\<open>not x\<close>, \<^verbatim>\<open>x or y\<close>, \<^verbatim>\<open>if x\<close>) on these values.\<close>

fun truthy :: "pyval \<Rightarrow> bool" where
  "truthy PNone = False"
| "truthy (PStr s) = (s \<noteq> [])"
| "truthy (PInt i) = (i \<noteq> 0)"

fun isinstance_str :: "pyval \<Rightarrow> bool" where
  "isinstance_str (PStr s) = True"
| "isinstance_str v = False"

fun str_value :: "pyval \<Rightarrow> string" where
  "str_value (PStr s) = s"
| "str_value v = []"

text \<open>\<^verbatim>\<open>x or d\<close>\<close>

definition py_or :: "pyval \<Rightarrow> pyval \<Rightarrow> pyval" where
  "py_or x d = (if truthy x then x else d)"

text \<open>
  \<^verbatim>\<open>str.lower()\<close> applies the Unicode case mapping of the Python runtime, a table that is
  not part of the application. Every function below that calls it takes the mapping as
  its first parameter, \<open>lower\<close>, a function on strings; what is proved of these functions
  holds for every such function, the runtime's among them.

  \<^verbatim>\<open>str.replace(old, new)\<close> for one-character arguments. In UTF-8 the byte of an ASCII
  character occurs only as that character, so the replacement of a space by a hyphen is
  the same on bytes as on code points.
\<close>

definition str_replace :: "char \<Rightarrow> char \<Rightarrow> string \<Rightarrow> string" where
  "str_replace old new s = map (\<lambda>c. if c = old then new else c) s"

text \<open>
  A property bag is a dictionary from names to values, kept as an association list in
  the dictionary's order. \<^verbatim>\<open>e.get(key, default)\<close> is \<open>py_get\<close>.
\<close>

type_synonym props = "(string \<times> pyval) list"

definition py_get :: "props \<Rightarrow> string \<Rightarrow> pyval \<Rightarrow> pyval" where
  "py_get ps k d = (case map_of ps k of None \<Rightarrow> d | Some v \<Rightarrow> v)"

text \<open>
  The driver's \<^verbatim>\<open>Node\<close> and \<^verbatim>\<open>Relationship\<close>: the source reads \<^verbatim>\<open>element_id\<close>, \<^verbatim>\<open>labels\<close>,
  \<^verbatim>\<open>type\<close>, and uses both as mappings over their properties (\<^verbatim>\<open>dict(connected)\<close>,
  \<^verbatim>\<open>connected.get(...)\<close>). \<open>labels\<close> lists the label set in its iteration order, which is
  what \<^verbatim>\<open>next(iter(labels), "Entity")\<close> observes. A relationship also records the
  identifiers of the nodes it leaves and enters; only the queries read them.
\<close>

record node =
  element_id :: string
  labels :: "string list"
  properties :: props

record relationship =
  rel_type :: string
  rel_properties :: props
  start_node :: string
  end_node :: string

text \<open>
  Both driver classes are mappings that define \<^verbatim>\<open>__len__\<close> (the number of properties) and
  no \<^verbatim>\<open>__bool__\<close>, so Python's truth test of the object itself, as in
  \<^verbatim>\<open>if connected and ...\<close> and \<^verbatim>\<open>if record["r2"]:\<close>, is \<^verbatim>\<open>len(...) != 0\<close>.
\<close>

definition node_bool :: "node \<Rightarrow> bool" where
  "node_bool n = (properties n \<noteq> [])"

definition rel_bool :: "relationship \<Rightarrow> bool" where
  "rel_bool q = (rel_properties q \<noteq> [])"

text \<open>\<^verbatim>\<open>next(iter(n.labels), "Entity")\<close>\<close>

definition first_label :: "node \<Rightarrow> string" where
  "first_label n = (case labels n of [] \<Rightarrow> ''Entity'' | l # ls \<Rightarrow> l)"

text \<open>
  One record of the graph query, \<^verbatim>\<open>RETURN r, connected, r2, other_connected\<close>. The
  \<^verbatim>\<open>MATCH\<close> part always binds \<^verbatim>\<open>r\<close> and \<^verbatim>\<open>connected\<close>; the \<^verbatim>\<open>OPTIONAL MATCH\<close> part may leave
  \<^verbatim>\<open>r2\<close> and \<^verbatim>\<open>other_connected\<close> null (\<^verbatim>\<open>None\<close>).
\<close>

record row =
  rec_r :: relationship
  rec_connected :: node
  rec_r2 :: "relationship option"
  rec_other_connected :: "node option"

text \<open>Exceptions, with the text \<^verbatim>\<open>str(e)\<close> gives.\<close>

datatype exn = Neo4jError string | AttributeError string

fun str_exn :: "exn \<Rightarrow> string" where
  "str_exn (Neo4jError m) = m"
| "str_exn (AttributeError m) = m"

text \<open>What reading attribute \<open>attr\<close> of an object of type \<open>ty\<close> raises when it has none.\<close>

definition no_attribute :: "string \<Rightarrow> string \<Rightarrow> exn" where
  "no_attribute ty attr =
     AttributeError ([CHR 0x27] @ ty @ [CHR 0x27] @ '' object has no attribute ''
                     @ [CHR 0x27] @ attr @ [CHR 0x27])"

section \<open>The graph route\<close>

text \<open>The dictionaries appended to \<^verbatim>\<open>nodes\<close> and \<^verbatim>\<open>edges\<close>.\<close>

record shaped_node =
  node_id :: string
  node_label :: pyval
  node_group :: string
  node_properties :: props

record shaped_edge =
  edge_from :: string
  edge_to :: string
  edge_label :: string
  edge_properties :: props

text \<open>The three locals the loop of \<^verbatim>\<open>get_article_graph\<close> updates.\<close>

record graph_state =
  nodes :: "shaped_node list"
  edges :: "shaped_edge list"
  node_ids :: "string set"

definition init_state :: graph_state where
  "init_state = \<lparr>nodes = [], edges = [], node_ids = {}\<rparr>"

text \<open>Lines 155--163: the first-hop node.\<close>

definition add_connected :: "(string \<Rightarrow> string) \<Rightarrow> graph_state \<Rightarrow> node \<Rightarrow> graph_state" where
  "add_connected lower st connected =
     (if node_bool connected \<and> element_id connected \<notin> node_ids st then
        (let node_type = lower (first_label connected) in
         st\<lparr>nodes := nodes st @
               [\<lparr>node_id = element_id connected,
                 node_label = py_get (properties connected) ''name''
                   (py_get (properties connected) ''title''
                      (PStr (node_type @ '' '' @ element_id connected))),
                 node_group = node_type,
                 node_properties = properties connected\<rparr>],
            node_ids := insert (element_id connected) (node_ids st)\<rparr>)
      else st)"

text \<open>Lines 166--173: the first-hop edge.\<close>

definition add_first_edge :: "graph_state \<Rightarrow> relationship \<Rightarrow> node \<Rightarrow> graph_state" where
  "add_first_edge st rel connected =
     (if rel_type rel \<noteq> [] \<and> node_bool connected then
        st\<lparr>edges := edges st @
              [\<lparr>edge_from = element_id connected,
                edge_to = element_id connected,
                edge_label = rel_type rel,
                edge_properties = rel_properties rel\<rparr>]\<rparr>
      else st)"

text \<open>Lines 176--184: the second-hop node.\<close>

definition add_connected2 ::
  "(string \<Rightarrow> string) \<Rightarrow> graph_state \<Rightarrow> node option \<Rightarrow> graph_state" where
  "add_connected2 lower st connected2 =
     (case connected2 of
        None \<Rightarrow> st
      | Some c2 \<Rightarrow>
          if node_bool c2 \<and> element_id c2 \<notin> node_ids st then
            st\<lparr>nodes := nodes st @
                  [\<lparr>node_id = element_id c2,
                    node_label = py_get (properties c2) ''name''
                      (py_get (properties c2) ''title'' (PStr (element_id c2))),
                    node_group = lower (first_label c2),
                    node_properties = properties c2\<rparr>],
               node_ids := insert (element_id c2) (node_ids st)\<rparr>
          else st)"

text \<open>
  Lines 186--192: the second-hop edge. \<^verbatim>\<open>connected2.element_id\<close> on \<^verbatim>\<open>None\<close> raises
  \<^verbatim>\<open>AttributeError\<close>.
\<close>

definition add_second_edge ::
  "graph_state \<Rightarrow> relationship option \<Rightarrow> node \<Rightarrow> node option \<Rightarrow> exn + graph_state" where
  "add_second_edge st rel2 connected connected2 =
     (case rel2 of
        None \<Rightarrow> Inr st
      | Some q \<Rightarrow>
          if rel_bool q then
            (case connected2 of
               None \<Rightarrow> Inl (no_attribute ''NoneType'' ''element_id'')
             | Some c2 \<Rightarrow>
                 Inr (st\<lparr>edges := edges st @
                       [\<lparr>edge_from = element_id connected,
                         edge_to = element_id c2,
                         edge_label = rel_type q,
                         edge_properties = rel_properties q\<rparr>]\<rparr>))
          else Inr st)"

text \<open>The body of \<^verbatim>\<open>for record in result\<close>, lines 152--192.\<close>

definition loop_body :: "(string \<Rightarrow> string) \<Rightarrow> graph_state \<Rightarrow> row \<Rightarrow> exn + graph_state" where
  "loop_body lower st record =
     (let connected = rec_connected record;
          st1 = add_connected lower st connected;
          rel = rec_r record;
          st2 = add_first_edge st1 rel connected;
          connected2 = rec_other_connected record;
          st3 = add_connected2 lower st2 connected2
      in add_second_edge st3 (rec_r2 record) connected connected2)"

fun for_records ::
  "(string \<Rightarrow> string) \<Rightarrow> graph_state \<Rightarrow> row list \<Rightarrow> exn + graph_state" where
  "for_records lower st [] = Inr st"
| "for_records lower st (record # result) =
     (case loop_body lower st record of
        Inl e \<Rightarrow> Inl e
      | Inr st' \<Rightarrow> for_records lower st' result)"

text \<open>
  Responses of the JSON routes: the body handed to \<^verbatim>\<open>jsonify\<close> and the status code.
  What a route does besides answering is kept beside the response: the parametrised
  queries it sent to the store, and the lines it wrote to the application log.
\<close>

record article_json =
  aj_id :: string
  aj_title :: pyval
  aj_date :: pyval
  aj_readTime :: pyval
  aj_content :: pyval
  aj_source :: pyval
  aj_bias :: pyval
  aj_url :: pyval
  aj_factCheck :: pyval
  aj_tone :: pyval

datatype body =
    JsonError string
  | JsonGraph "shaped_node list" "shaped_edge list"
  | JsonArticle article_json

type_synonym response = "body \<times> nat"

datatype query = GraphQuery string | ContentQuery string

record effects =
  queries :: "query list"
  logged :: "string list"

definition no_effects :: effects where
  "no_effects = \<lparr>queries = [], logged = []\<rparr>"

text \<open>
  \<^verbatim>\<open>session.run(query, article_id=...)\<close> either raises or yields its records; the store is
  a parameter of each route, a function from the query parameter to that outcome.
\<close>

type_synonym 'a session_run = "string \<Rightarrow> exn + 'a"

text \<open>The decorator, lines 58--66.\<close>

definition handle_neo4j_exceptions ::
  "('s \<Rightarrow> pyval \<Rightarrow> (exn + response) \<times> effects) \<Rightarrow> 's \<Rightarrow> pyval \<Rightarrow> response \<times> effects" where
  "handle_neo4j_exceptions f run article_id =
     (case f run article_id of
        (Inr resp, eff) \<Rightarrow> (resp, eff)
      | (Inl e, eff) \<Rightarrow>
          ((JsonError ''Database error occurred'', 500),
           eff\<lparr>logged := logged eff @ [''Neo4j error: '' @ str_exn e]\<rparr>))"

text \<open>
  The undecorated \<^verbatim>\<open>get_article_graph\<close>, lines 132--196. The \<^verbatim>\<open>print\<close> of line 150 writes
  to standard output only and is left out.
\<close>

definition get_article_graph_body ::
  "(string \<Rightarrow> string) \<Rightarrow> row list session_run \<Rightarrow> pyval \<Rightarrow> (exn + response) \<times> effects" where
  "get_article_graph_body lower run article_id =
     (if \<not> truthy article_id \<or> \<not> isinstance_str article_id then
        (Inr (JsonError ''Invalid article ID'', 400), no_effects)
      else
        (let aid = str_value article_id;
             eff = no_effects\<lparr>queries := [GraphQuery aid]\<rparr>
         in case run aid of
              Inl e \<Rightarrow> (Inl e, eff)
            | Inr result \<Rightarrow>
                (case for_records lower init_state result of
                   Inl e \<Rightarrow> (Inl e, eff)
                 | Inr st \<Rightarrow> (Inr (JsonGraph (nodes st) (edges st), 200), eff))))"

definition get_article_graph ::
  "(string \<Rightarrow> string) \<Rightarrow> row list session_run \<Rightarrow> pyval \<Rightarrow> response \<times> effects" where
  "get_article_graph lower = handle_neo4j_exceptions (get_article_graph_body lower)"

section \<open>The content route\<close>

text \<open>\<^verbatim>\<open>Result.single()\<close>: \<^verbatim>\<open>None\<close> without a record, else the first one.\<close>

definition single :: "'a list \<Rightarrow> 'a option" where
  "single rs = (case rs of [] \<Rightarrow> None | x # xs \<Rightarrow> Some x)"

text \<open>The undecorated \<^verbatim>\<open>get_article_content\<close>, lines 201--228.\<close>

definition get_article_content_body ::
  "node list session_run \<Rightarrow> pyval \<Rightarrow> (exn + response) \<times> effects" where
  "get_article_content_body run article_id =
     (if \<not> truthy article_id \<or> \<not> isinstance_str article_id then
        (Inr (JsonError ''Invalid article ID'', 400), no_effects)
      else
        (let aid = str_value article_id;
             eff = no_effects\<lparr>queries := [ContentQuery aid]\<rparr>
         in case run aid of
              Inl e \<Rightarrow> (Inl e, eff)
            | Inr records \<Rightarrow>
                (case single records of
                   None \<Rightarrow> (Inr (JsonError ''Article not found'', 404), eff)
                 | Some article \<Rightarrow>
                     (Inr (JsonArticle
                        \<lparr>aj_id = element_id article,
                         aj_title = py_get (properties article) ''title''
                           (PStr (''Article '' @ element_id article)),
                         aj_date = py_get (properties article) ''date'' (PStr ''''),
                         aj_readTime = py_get (properties article) ''read_time'' (PStr ''''),
                         aj_content = py_get (properties article) ''text''
                           (PStr (''Sadr'' @ [CHR 0xC5, CHR 0xBE] @ ''aj ''
                              @ [CHR 0xC4, CHR 0x8D] @ ''lanka nije dostupan.'')),
                         aj_source = py_get (properties article) ''source'' (PStr ''''),
                         aj_bias = py_get (properties article) ''bias'' (PStr ''#''),
                         aj_url = py_get (properties article) ''url'' (PStr ''#''),
                         aj_factCheck = py_get (properties article) ''fact_check''
                           (PStr (''Nema dostupne informacije o proveri ''
                              @ [CHR 0xC4, CHR 0x8D] @ ''injenica.'')),
                         aj_tone = py_get (properties article) ''tone''
                           (PStr ''Nema dostupne analize tona.'')\<rparr>, 200), eff))))"

definition get_article_content :: "node list session_run \<Rightarrow> pyval \<Rightarrow> response \<times> effects" where
  "get_article_content = handle_neo4j_exceptions get_article_content_body"

section \<open>The index route\<close>

text \<open>
  One record of the index query, \<^verbatim>\<open>RETURN bias, source, articles\<close>: the two grouping
  keys (\<^verbatim>\<open>None\<close> where the attribute is missing) and the collected article nodes.
\<close>

record index_record =
  rec_bias :: pyval
  rec_source :: pyval
  rec_articles :: "node list"

record article_entry =
  ae_id :: string
  ae_title :: pyval
  ae_source :: pyval
  ae_bias :: pyval
  ae_url :: pyval
  ae_content :: pyval
  ae_date :: pyval
  ae_read_time :: pyval

record source_group =
  sg_id :: string
  sg_name :: pyval
  sg_articles :: "article_entry list"

record bias_group =
  bg_id :: string
  bg_name :: pyval
  bg_sources :: "source_group list"

text \<open>Lines 90--99: the dictionary built for one article.\<close>

definition article_dict :: "pyval \<Rightarrow> pyval \<Rightarrow> node \<Rightarrow> article_entry" where
  "article_dict source bias article =
     \<lparr>ae_id = element_id article,
      ae_title = py_get (properties article) ''title'' (PStr (''Article '' @ element_id article)),
      ae_source = source,
      ae_bias = bias,
      ae_url = py_get (properties article) ''url'' (PStr ''#''),
      ae_content = py_get (properties article) ''content''
        (PStr (''<p>Sadr'' @ [CHR 0xC5, CHR 0xBE] @ ''aj '' @ [CHR 0xC4, CHR 0x8D]
           @ ''lanka nije dostupan.</p>'')),
      ae_date = py_get (properties article) ''date'' (PStr ''''),
      ae_read_time = py_get (properties article) ''read_time'' (PStr '''')\<rparr>"

text \<open>
  A Python dictionary keeps its keys in insertion order; \<^verbatim>\<open>d[k] = v\<close> replaces the value
  of a key already present where it stands and appends a new key at the end.
\<close>

fun dict_set :: "'k \<Rightarrow> 'v \<Rightarrow> ('k \<times> 'v) list \<Rightarrow> ('k \<times> 'v) list" where
  "dict_set k v [] = [(k, v)]"
| "dict_set k v ((k', v') # d) = (if k = k' then (k', v) # d else (k', v') # dict_set k v d)"

type_synonym source_dict = "(pyval \<times> article_entry list) list"
type_synonym bias_dict = "(pyval \<times> source_dict) list"

text \<open>Lines 84--104: the loop that fills \<^verbatim>\<open>bias_groups\<close>.\<close>

definition group_record :: "bias_dict \<Rightarrow> index_record \<Rightarrow> bias_dict" where
  "group_record bias_groups record =
     (let bias = py_or (rec_bias record) (PStr ''Nepoznat bias'');
          source = py_or (rec_source record) (PStr ''Nepoznat izvor'');
          articles = map (article_dict source bias) (rec_articles record);
          bias_groups1 =
            (if map_of bias_groups bias = None then dict_set bias [] bias_groups
             else bias_groups)
      in dict_set bias
           (dict_set source articles (case map_of bias_groups1 bias of None \<Rightarrow> [] | Some d \<Rightarrow> d))
           bias_groups1)"

fun group_records :: "bias_dict \<Rightarrow> index_record list \<Rightarrow> bias_dict" where
  "group_records bias_groups [] = bias_groups"
| "group_records bias_groups (record # result) =
     group_records (group_record bias_groups record) result"

text \<open>\<^verbatim>\<open>x.lower()\<close> on a dynamically typed value: only a \<^verbatim>\<open>str\<close> has the method.\<close>

fun py_lower :: "(string \<Rightarrow> string) \<Rightarrow> pyval \<Rightarrow> exn + string" where
  "py_lower lower (PStr s) = Inr (lower s)"
| "py_lower lower (PInt i) = Inl (no_attribute ''int'' ''lower'')"
| "py_lower lower PNone = Inl (no_attribute ''NoneType'' ''lower'')"

text \<open>\<^verbatim>\<open>name.lower().replace(" ", "-")\<close>\<close>

definition slug :: "(string \<Rightarrow> string) \<Rightarrow> pyval \<Rightarrow> exn + string" where
  "slug lower name =
     (case py_lower lower name of
        Inl e \<Rightarrow> Inl e
      | Inr s \<Rightarrow> Inr (str_replace CHR '' '' CHR ''-'' s))"

text \<open>Lines 107--121: the conversion to the structure the template reads.\<close>

fun source_list_of :: "(string \<Rightarrow> string) \<Rightarrow> source_dict \<Rightarrow> exn + source_group list" where
  "source_list_of lower [] = Inr []"
| "source_list_of lower ((source_name, articles) # sources) =
     (case slug lower source_name of
        Inl e \<Rightarrow> Inl e
      | Inr i \<Rightarrow>
          (case source_list_of lower sources of
             Inl e \<Rightarrow> Inl e
           | Inr rest \<Rightarrow> Inr (\<lparr>sg_id = i, sg_name = source_name, sg_articles = articles\<rparr> # rest)))"

fun groups_of :: "(string \<Rightarrow> string) \<Rightarrow> bias_dict \<Rightarrow> exn + bias_group list" where
  "groups_of lower [] = Inr []"
| "groups_of lower ((bias, sources) # bias_groups) =
     (case source_list_of lower sources of
        Inl e \<Rightarrow> Inl e
      | Inr source_list \<Rightarrow>
          (case slug lower bias of
             Inl e \<Rightarrow> Inl e
           | Inr i \<Rightarrow>
               (case groups_of lower bias_groups of
                  Inl e \<Rightarrow> Inl e
                | Inr rest \<Rightarrow> Inr (\<lparr>bg_id = i, bg_name = bias, bg_sources = source_list\<rparr> # rest))))"

text \<open>
  What \<^verbatim>\<open>index\<close> returns: a rendered template with its context, and the status. The
  route's own \<^verbatim>\<open>try\<close>/\<^verbatim>\<open>except\<close> turns every exception into the error page and a log line.
  Its parameter is the outcome of the one query it runs.
\<close>

datatype page = IndexPage "bias_group list" | ErrorPage string

definition index ::
  "(string \<Rightarrow> string) \<Rightarrow> exn + index_record list \<Rightarrow> (page \<times> nat) \<times> string list" where
  "index lower run =
     (case (case run of
              Inl e \<Rightarrow> Inl e
            | Inr result \<Rightarrow> groups_of lower (group_records [] result)) of
        Inl e \<Rightarrow> ((ErrorPage ''Error loading articles'', 500),
                  [''Error in index route: '' @ str_exn e])
      | Inr groups \<Rightarrow> ((IndexPage groups, 200), []))"

section \<open>The graph query over a store\<close>

text \<open>
  The store holds nodes and directed relationships. The query of the graph route is
  evaluated over it as Cypher does: a missing property is null, a comparison with null is
  null, values of different types are unequal, and \<^verbatim>\<open>WHERE\<close> keeps a match only when
  its predicate is true. Records come in the order of the store's lists.
\<close>

record graph_store =
  store_nodes :: "node list"
  store_rels :: "relationship list"

definition cy_prop :: "props \<Rightarrow> string \<Rightarrow> pyval" where
  "cy_prop ps k = py_get ps k PNone"

fun cy_eq :: "pyval \<Rightarrow> pyval \<Rightarrow> bool option" where
  "cy_eq PNone y = None"
| "cy_eq x PNone = None"
| "cy_eq x y = Some (x = y)"

definition cy_where :: "bool option \<Rightarrow> bool" where
  "cy_where p = (p = Some True)"

definition is_article :: "node \<Rightarrow> bool" where
  "is_article n = (''Article'' \<in> set (labels n))"

text \<open>
  \<^verbatim>\<open>OPTIONAL MATCH (connected)-[r2]->(other_connected) WHERE r2.article = a.title\<close>, for
  one first-hop match: a record per second-hop match, or one record with nulls.
\<close>

definition second_hop :: "graph_store \<Rightarrow> node \<Rightarrow> relationship \<Rightarrow> node \<Rightarrow> row list" where
  "second_hop g a rel c =
     (let ms = concat (map (\<lambda>q. map (\<lambda>oc. (q, oc))
                                  (filter (\<lambda>oc. element_id oc = end_node q) (store_nodes g)))
                 (filter (\<lambda>q. start_node q = element_id c
                             \<and> cy_where (cy_eq (cy_prop (rel_properties q) ''article'')
                                                (cy_prop (properties a) ''title'')))
                    (store_rels g)))
      in if ms = [] then
           [\<lparr>rec_r = rel, rec_connected = c, rec_r2 = None, rec_other_connected = None\<rparr>]
         else
           map (\<lambda>(q, oc). \<lparr>rec_r = rel, rec_connected = c, rec_r2 = Some q,
                            rec_other_connected = Some oc\<rparr>) ms)"

text \<open>The query of \<^verbatim>\<open>get_article_graph\<close>, lines 137--143.\<close>

definition graph_query :: "graph_store \<Rightarrow> string \<Rightarrow> row list" where
  "graph_query g article_id =
     concat (map (\<lambda>a.
       concat (map (\<lambda>rel.
         concat (map (second_hop g a rel)
           (filter (\<lambda>c. element_id c = end_node rel) (store_nodes g))))
         (filter (\<lambda>rel. start_node rel = element_id a) (store_rels g))))
       (filter (\<lambda>a. is_article a \<and> element_id a = article_id) (store_nodes g)))"

text \<open>A session on a store that answers the query.\<close>

definition graph_session :: "graph_store \<Rightarrow> row list session_run" where
  "graph_session g article_id = Inr (graph_query g article_id)"

section \<open>Reading a response, and the edges of one record\<close>

text \<open>\<^verbatim>\<open>response["nodes"]\<close> and \<^verbatim>\<open>response["edges"]\<close> of a graph response.\<close>

fun body_nodes :: "body \<Rightarrow> shaped_node list" where
  "body_nodes (JsonGraph ns es) = ns"
| "body_nodes b = []"

fun body_edges :: "body \<Rightarrow> shaped_edge list" where
  "body_edges (JsonGraph ns es) = es"
| "body_edges b = []"

text \<open>
  The edges one record is to contribute, written from the description of the route and
  not from its loop: the first-hop edge, a loop at the connected node, when the
  relationship has a type and the node passes the truth test; then the second-hop edge
  from the connected node to the other one, when the second relationship passes the
  truth test.
\<close>

definition first_hop_edge :: "relationship \<Rightarrow> node \<Rightarrow> shaped_edge" where
  "first_hop_edge rel c =
     \<lparr>edge_from = element_id c, edge_to = element_id c, edge_label = rel_type rel,
      edge_properties = rel_properties rel\<rparr>"

definition second_hop_edge :: "node \<Rightarrow> relationship \<Rightarrow> node \<Rightarrow> shaped_edge" where
  "second_hop_edge c q c2 =
     \<lparr>edge_from = element_id c, edge_to = element_id c2, edge_label = rel_type q,
      edge_properties = rel_properties q\<rparr>"

definition record_edges :: "row \<Rightarrow> shaped_edge list" where
  "record_edges record =
     (if rel_type (rec_r record) \<noteq> [] \<and> node_bool (rec_connected record)
      then [first_hop_edge (rec_r record) (rec_connected record)] else [])
     @ (case rec_r2 record of
          None \<Rightarrow> []
        | Some q \<Rightarrow>
            (case rec_other_connected record of
               None \<Rightarrow> []
             | Some c2 \<Rightarrow>
                 if rel_bool q then [second_hop_edge (rec_connected record) q c2] else []))"

text \<open>
  The loop invariant that ties the set \<^verbatim>\<open>node_ids\<close> to the list \<^verbatim>\<open>nodes\<close>: the set holds
  exactly the identifiers listed, and none is listed twice.
\<close>

definition ids_inv :: "graph_state \<Rightarrow> bool" where
  "ids_inv st = (node_ids st = set (map node_id (nodes st)) \<and> distinct (map node_id (nodes st)))"

text \<open>Every edge listed so far runs between identifiers of \<^verbatim>\<open>node_ids\<close>.\<close>

definition edges_closed :: "graph_state \<Rightarrow> bool" where
  "edges_closed st =
     (\<forall>e\<in>set (edges st). edge_from e \<in> node_ids st \<and> edge_to e \<in> node_ids st)"

text \<open>The \<^verbatim>\<open>groups\<close> handed to the index template.\<close>

fun page_groups :: "page \<Rightarrow> bias_group list" where
  "page_groups (IndexPage groups) = groups"
| "page_groups p = []"

text \<open>
  \<^verbatim>\<open>bias in bias_groups and source in bias_groups[bias]\<close>: the nested dictionary has an
  entry for the pair of keys.
\<close>

definition has_group :: "bias_dict \<Rightarrow> pyval \<Rightarrow> pyval \<Rightarrow> bool" where
  "has_group d b s = (case map_of d b of None \<Rightarrow> False | Some sd \<Rightarrow> map_of sd s \<noteq> None)"

section \<open>Example stores\<close>

text \<open>
  A small store in the shape the application expects: an article, the entities it
  mentions and relationships between entities that carry the article's title.
\<close>

definition vest :: node where
  "vest = \<lparr>element_id = ''4:db:0'', labels = [''Article''],
            properties = [(''title'', PStr ''Vest''), (''bias'', PStr ''Levo'')]\<rparr>"

definition ana :: node where
  "ana = \<lparr>element_id = ''4:db:1'', labels = [''Osoba''], properties = [(''name'', PStr ''Ana'')]\<rparr>"

definition beograd :: node where
  "beograd = \<lparr>element_id = ''4:db:2'', labels = [''Lokacija''],
               properties = [(''name'', PStr ''Beograd'')]\<rparr>"

text \<open>An entity with neither \<^verbatim>\<open>name\<close> nor \<^verbatim>\<open>title\<close>, and one without any property.\<close>

definition unnamed_place :: node where
  "unnamed_place = \<lparr>element_id = ''4:db:3'', labels = [''Lokacija''],
                     properties = [(''opis'', PStr ''grad'')]\<rparr>"

definition bare_place :: node where
  "bare_place = \<lparr>element_id = ''4:db:4'', labels = [''Lokacija''], properties = []\<rparr>"

definition pominje :: relationship where
  "pominje = \<lparr>rel_type = ''POMINJE'', rel_properties = [],
               start_node = ''4:db:0'', end_node = ''4:db:1''\<rparr>"

definition pominje_beograd :: relationship where
  "pominje_beograd = \<lparr>rel_type = ''POMINJE'', rel_properties = [],
                       start_node = ''4:db:0'', end_node = ''4:db:2''\<rparr>"

definition posetila :: relationship where
  "posetila = \<lparr>rel_type = ''POSETILA'', rel_properties = [(''article'', PStr ''Vest'')],
                start_node = ''4:db:1'', end_node = ''4:db:2''\<rparr>"

definition zivi_u :: relationship where
  "zivi_u = \<lparr>rel_type = ''ZIVI_U'', rel_properties = [(''article'', PStr ''Vest'')],
              start_node = ''4:db:1'', end_node = ''4:db:3''\<rparr>"

definition rodjena_u :: relationship where
  "rodjena_u = \<lparr>rel_type = ''RODJENA_U'', rel_properties = [(''article'', PStr ''Vest'')],
                 start_node = ''4:db:1'', end_node = ''4:db:4''\<rparr>"

text \<open>A relationship of the article's own entity back to the article.\<close>

definition objavljena_u :: relationship where
  "objavljena_u = \<lparr>rel_type = ''OBJAVLJENA_U'', rel_properties = [(''article'', PStr ''Vest'')],
                    start_node = ''4:db:1'', end_node = ''4:db:0''\<rparr>"

definition store_demo :: graph_store where
  "store_demo = \<lparr>store_nodes = [vest, ana, beograd, unnamed_place],
                  store_rels = [pominje, pominje_beograd, posetila, zivi_u]\<rparr>"

definition store_unnamed :: graph_store where
  "store_unnamed = \<lparr>store_nodes = [vest, ana, unnamed_place], store_rels = [pominje, zivi_u]\<rparr>"

definition store_bare :: graph_store where
  "store_bare = \<lparr>store_nodes = [vest, ana, bare_place], store_rels = [pominje, rodjena_u]\<rparr>"

definition store_backlink :: graph_store where
  "store_backlink = \<lparr>store_nodes = [vest, ana], store_rels = [pominje, objavljena_u]\<rparr>"

text \<open>An article related to itself.\<close>

definition povezan :: relationship where
  "povezan = \<lparr>rel_type = ''POVEZAN'', rel_properties = [],
               start_node = ''4:db:0'', end_node = ''4:db:0''\<rparr>"

definition store_selfref :: graph_store where
  "store_selfref = \<lparr>store_nodes = [vest], store_rels = [povezan]\<rparr>"

text \<open>
  An article that mentions a place without any property, from which two relationships
  that carry the article's title lead on: the first-hop relationship occurs in two
  records.
\<close>

definition pominje_mesto :: relationship where
  "pominje_mesto = \<lparr>rel_type = ''POMINJE'', rel_properties = [],
                     start_node = ''4:db:0'', end_node = ''4:db:4''\<rparr>"

definition u_blizini :: relationship where
  "u_blizini = \<lparr>rel_type = ''U_BLIZINI'', rel_properties = [(''article'', PStr ''Vest'')],
                 start_node = ''4:db:4'', end_node = ''4:db:2''\<rparr>"

definition poznato_po :: relationship where
  "poznato_po = \<lparr>rel_type = ''POZNATO_PO'', rel_properties = [(''article'', PStr ''Vest'')],
                  start_node = ''4:db:4'', end_node = ''4:db:1''\<rparr>"


text \<open>
  Records of the index query, and the groups the route builds from them under the
  lowering \<open>lower\<close>.
\<close>

definition demo_records :: "index_record list" where
  "demo_records =
     [\<lparr>rec_bias = PNone, rec_source = PNone, rec_articles = [vest]\<rparr>,
      \<lparr>rec_bias = PStr ''Levo'', rec_source = PStr ''Danas Online'', rec_articles = []\<rparr>]"

definition demo_groups :: "(string \<Rightarrow> string) \<Rightarrow> bias_group list" where
  "demo_groups lower =
     [\<lparr>bg_id = str_replace CHR '' '' CHR ''-'' (lower ''Nepoznat bias''),
        bg_name = PStr ''Nepoznat bias'',
        bg_sources =
          [\<lparr>sg_id = str_replace CHR '' '' CHR ''-'' (lower ''Nepoznat izvor''),
             sg_name = PStr ''Nepoznat izvor'',
             sg_articles =
               [article_dict (PStr ''Nepoznat izvor'') (PStr ''Nepoznat bias'') vest]\<rparr>]\<rparr>,
      \<lparr>bg_id = str_replace CHR '' '' CHR ''-'' (lower ''Levo''), bg_name = PStr ''Levo'',
        bg_sources = [\<lparr>sg_id = str_replace CHR '' '' CHR ''-'' (lower ''Danas Online''),
                        sg_name = PStr ''Danas Online'', sg_articles = []\<rparr>]\<rparr>]"

section \<open>The loop of the graph route\<close>

text \<open>
  Each step of the loop body changes the state in one place, and the edges the body
  appends are the edges \<open>record_edges\<close> describes: they do not depend on the state the
  loop has reached.
\<close>

lemma init_fields: "nodes init_state = []" "edges init_state = []" "node_ids init_state = {}"
  by (simp_all add: init_state_def)

lemma edges_add_connected: "edges (add_connected lower st c) = edges st"
  by (simp add: add_connected_def Let_def)

lemma edges_add_connected2: "edges (add_connected2 lower st c2) = edges st"
  by (simp add: add_connected2_def split: option.splits)

lemma nodes_add_first_edge: "nodes (add_first_edge st rel c) = nodes st"
  and node_ids_add_first_edge: "node_ids (add_first_edge st rel c) = node_ids st"
  by (simp_all add: add_first_edge_def)

lemma add_second_edge_Inr:
  assumes "add_second_edge st rel2 c c2 = Inr st'"
  shows "nodes st' = nodes st" and "node_ids st' = node_ids st"
  using assms by (auto simp: add_second_edge_def split: option.splits if_splits)

lemma loop_body_edges:
  assumes "loop_body lower st record = Inr st'"
  shows "edges st' = edges st @ record_edges record"
proof -
  let ?c = "rec_connected record"
  let ?c2 = "rec_other_connected record"
  let ?st2 = "add_first_edge (add_connected lower st ?c) (rec_r record) ?c"
  let ?st3 = "add_connected2 lower ?st2 ?c2"
  from assms have a: "add_second_edge ?st3 (rec_r2 record) ?c ?c2 = Inr st'"
    by (simp add: loop_body_def Let_def)
  have e3: "edges ?st3 =
      edges st @ (if rel_type (rec_r record) \<noteq> [] \<and> node_bool ?c
                  then [first_hop_edge (rec_r record) ?c] else [])"
    by (simp add: edges_add_connected2 add_first_edge_def edges_add_connected first_hop_edge_def)
  from a have "edges st' = edges ?st3 @
      (case rec_r2 record of
         None \<Rightarrow> []
       | Some q \<Rightarrow>
           (case ?c2 of
              None \<Rightarrow> []
            | Some c2 \<Rightarrow> if rel_bool q then [second_hop_edge ?c q c2] else []))"
    by (cases "rec_r2 record"; cases ?c2)
       (auto simp: add_second_edge_def second_hop_edge_def split: if_splits)
  with e3 show ?thesis by (simp add: record_edges_def)
qed

lemma for_records_edges:
  "for_records lower st result = Inr st' \<Longrightarrow>
   edges st' = edges st @ concat (map record_edges result)"
proof (induction result arbitrary: st)
  case Nil
  then show ?case by simp
next
  case (Cons x result)
  then show ?case
    by (auto split: sum.splits dest!: loop_body_edges)
qed

lemma first_hop_edge_in_record_edges:
  "rel_type (rec_r x) \<noteq> [] \<Longrightarrow> node_bool (rec_connected x) \<Longrightarrow>
   first_hop_edge (rec_r x) (rec_connected x) \<in> set (record_edges x)"
  by (simp add: record_edges_def)


lemma record_edges_endpoints:
  assumes "e \<in> set (record_edges x)"
  shows "edge_from e = element_id (rec_connected x)
         \<and> (edge_to e = element_id (rec_connected x)
            \<or> (\<exists>c2. rec_other_connected x = Some c2 \<and> edge_to e = element_id c2))"
  using assms
  by (cases "rec_r2 x"; cases "rec_other_connected x")
     (auto simp: record_edges_def first_hop_edge_def second_hop_edge_def split: if_splits)


text \<open>
  The set \<^verbatim>\<open>node_ids\<close> and the list \<^verbatim>\<open>nodes\<close> stay in step.
\<close>

lemma ids_inv_init: "ids_inv init_state"
  by (simp add: ids_inv_def init_state_def)

lemma ids_inv_add_connected: "ids_inv st \<Longrightarrow> ids_inv (add_connected lower st c)"
  by (auto simp: ids_inv_def add_connected_def Let_def)

lemma ids_inv_add_first_edge: "ids_inv st \<Longrightarrow> ids_inv (add_first_edge st rel c)"
  by (simp add: ids_inv_def nodes_add_first_edge node_ids_add_first_edge)

lemma ids_inv_add_connected2: "ids_inv st \<Longrightarrow> ids_inv (add_connected2 lower st c2)"
  by (auto simp: ids_inv_def add_connected2_def split: option.splits)

lemma ids_inv_add_second_edge:
  "ids_inv st \<Longrightarrow> add_second_edge st rel2 c c2 = Inr st' \<Longrightarrow> ids_inv st'"
  by (simp add: ids_inv_def add_second_edge_Inr(1,2))

lemma ids_inv_loop_body:
  assumes "ids_inv st" and "loop_body lower st record = Inr st'"
  shows "ids_inv st'"
proof -
  have "ids_inv (add_connected2 lower (add_first_edge (add_connected lower st (rec_connected record))
          (rec_r record) (rec_connected record)) (rec_other_connected record))"
    using assms(1) by (intro ids_inv_add_connected2 ids_inv_add_first_edge ids_inv_add_connected)
  with assms(2) show ?thesis
    by (auto simp: loop_body_def Let_def intro: ids_inv_add_second_edge)
qed

lemma ids_inv_for_records:
  "ids_inv st \<Longrightarrow> for_records lower st result = Inr st' \<Longrightarrow> ids_inv st'"
proof (induction result arbitrary: st)
  case Nil
  then show ?case by simp
next
  case (Cons x result)
  from Cons.prems(2) obtain st1 where b: "loop_body lower st x = Inr st1"
    and r: "for_records lower st1 result = Inr st'"
    by (auto split: sum.splits)
  from Cons.prems(1) b have "ids_inv st1" by (rule ids_inv_loop_body)
  then show ?case using r by (rule Cons.IH)
qed

lemma for_records_nodes_from_rows:
  "for_records lower st result = Inr st' \<Longrightarrow> n \<in> set (nodes st') \<Longrightarrow>
   n \<in> set (nodes st)
   \<or> (\<exists>x\<in>set result. node_id n = element_id (rec_connected x)
         \<or> (\<exists>c2. rec_other_connected x = Some c2 \<and> node_id n = element_id c2))"
proof (induction result arbitrary: st)
  case Nil
  then show ?case by simp
next
  case (Cons x result)
  from Cons.prems(1) obtain st1 where b: "loop_body lower st x = Inr st1"
    and r: "for_records lower st1 result = Inr st'"
    by (auto split: sum.splits)
  from b have step: "\<forall>m\<in>set (nodes st1). m \<in> set (nodes st)
      \<or> node_id m = element_id (rec_connected x)
      \<or> (\<exists>c2. rec_other_connected x = Some c2 \<and> node_id m = element_id c2)"
    by (auto simp: loop_body_def Let_def add_connected_def add_connected2_def
        nodes_add_first_edge dest!: add_second_edge_Inr(1) split: option.splits if_splits)
  from Cons.IH[OF r Cons.prems(2)] step show ?case by auto
qed

text \<open>
  When every node of a record passes the truth test, the record's edges run between
  listed nodes.
\<close>

lemma node_ids_add_connected_mono: "node_ids st \<subseteq> node_ids (add_connected lower st c)"
  by (auto simp: add_connected_def Let_def)

lemma node_ids_add_connected2_mono: "node_ids st \<subseteq> node_ids (add_connected2 lower st c2)"
  by (cases c2) (auto simp: add_connected2_def)

lemma edges_closed_loop_body:
  assumes "edges_closed st" and "loop_body lower st x = Inr st'"
    and "node_bool (rec_connected x)"
    and "\<forall>c2. rec_other_connected x = Some c2 \<longrightarrow> node_bool c2"
  shows "edges_closed st'"
proof -
  let ?c = "rec_connected x"
  let ?s1 = "add_connected lower st ?c"
  let ?s2 = "add_first_edge ?s1 (rec_r x) ?c"
  let ?s3 = "add_connected2 lower ?s2 (rec_other_connected x)"
  from assms(2) have st': "add_second_edge ?s3 (rec_r2 x) ?c (rec_other_connected x) = Inr st'"
    by (simp add: loop_body_def Let_def)
  have ids': "node_ids st' = node_ids ?s3" using st' by (rule add_second_edge_Inr(2))
  have s12: "node_ids ?s2 = node_ids ?s1" by (rule node_ids_add_first_edge)
  have a: "element_id ?c \<in> node_ids ?s1"
    using assms(3) by (simp add: add_connected_def Let_def)
  have m: "node_ids ?s1 \<subseteq> node_ids st'"
    unfolding ids' using node_ids_add_connected2_mono[of ?s2 lower "rec_other_connected x"] s12 by simp
  have sub: "node_ids st \<subseteq> node_ids st'"
    using node_ids_add_connected_mono[of st lower ?c] m by blast
  have c: "element_id ?c \<in> node_ids st'" using a m by blast
  have d: "element_id c2 \<in> node_ids st'" if "rec_other_connected x = Some c2" for c2
  proof -
    from that assms(4) have "node_bool c2" by simp
    then have "element_id c2 \<in> node_ids (add_connected2 lower ?s2 (Some c2))"
      by (simp add: add_connected2_def)
    with that show ?thesis by (simp add: ids')
  qed
  have e: "edges st' = edges st @ record_edges x" using assms(2) by (rule loop_body_edges)
  have new: "edge_from e \<in> node_ids st' \<and> edge_to e \<in> node_ids st'"
    if "e \<in> set (record_edges x)" for e
  proof -
    from record_edges_endpoints[OF that]
    have f: "edge_from e = element_id ?c"
      and t: "edge_to e = element_id ?c
              \<or> (\<exists>c2. rec_other_connected x = Some c2 \<and> edge_to e = element_id c2)"
      by simp_all
    from t have "edge_to e \<in> node_ids st'"
    proof
      assume "edge_to e = element_id ?c"
      with c show ?thesis by simp
    next
      assume "\<exists>c2. rec_other_connected x = Some c2 \<and> edge_to e = element_id c2"
      then obtain c2 where "rec_other_connected x = Some c2" "edge_to e = element_id c2" by blast
      with d show ?thesis by simp
    qed
    with f c show ?thesis by simp
  qed
  show ?thesis
    unfolding edges_closed_def e
  proof
    fix e assume "e \<in> set (edges st @ record_edges x)"
    then consider "e \<in> set (edges st)" | "e \<in> set (record_edges x)" by auto
    then show "edge_from e \<in> node_ids st' \<and> edge_to e \<in> node_ids st'"
    proof cases
      case 1
      with assms(1) sub show ?thesis unfolding edges_closed_def by blast
    next
      case 2
      then show ?thesis by (rule new)
    qed
  qed
qed

lemma edges_closed_for_records:
  "edges_closed st \<Longrightarrow> for_records lower st result = Inr st' \<Longrightarrow>
   \<forall>x\<in>set result. node_bool (rec_connected x)
     \<and> (\<forall>c2. rec_other_connected x = Some c2 \<longrightarrow> node_bool c2) \<Longrightarrow>
   edges_closed st'"
proof (induction result arbitrary: st)
  case Nil
  then show ?case by simp
next
  case (Cons x result)
  from Cons.prems(2) obtain st1 where b: "loop_body lower st x = Inr st1"
    and r: "for_records lower st1 result = Inr st'"
    by (auto split: sum.splits)
  from Cons.prems(1) b Cons.prems(3) have "edges_closed st1"
    by (intro edges_closed_loop_body[of st lower x st1]) auto
  from Cons.IH[OF this r] Cons.prems(3) show ?case by simp
qed

text \<open>
  A graph response is the state the loop ends in.
\<close>

lemma graph_response_cases:
  assumes "get_article_graph lower run article_id = ((JsonGraph ns es, code), eff)"
  shows "\<exists>result st. truthy article_id \<and> isinstance_str article_id
           \<and> run (str_value article_id) = Inr result
           \<and> for_records lower init_state result = Inr st \<and> ns = nodes st \<and> es = edges st"
  using assms
  by (auto simp: get_article_graph_def handle_neo4j_exceptions_def get_article_graph_body_def
      Let_def split: if_splits sum.splits)

text \<open>
  The records of the graph query bind \<^verbatim>\<open>r2\<close> and \<^verbatim>\<open>other_connected\<close> together, so the
  loop never raises on them, and the route answers every well-formed identifier on a
  store that answers.
\<close>

lemma second_hop_paired:
  assumes "x \<in> set (second_hop g a rel c)"
  shows "rec_r2 x = None \<or> rec_other_connected x \<noteq> None"
proof -
  define ms where "ms = concat (map (\<lambda>q. map (\<lambda>oc. (q, oc))
                                  (filter (\<lambda>oc. element_id oc = end_node q) (store_nodes g)))
                 (filter (\<lambda>q. start_node q = element_id c
                             \<and> cy_where (cy_eq (cy_prop (rel_properties q) ''article'')
                                                (cy_prop (properties a) ''title'')))
                    (store_rels g)))"
  have "second_hop g a rel c =
          (if ms = [] then
             [\<lparr>rec_r = rel, rec_connected = c, rec_r2 = None, rec_other_connected = None\<rparr>]
           else map (\<lambda>(q, oc). \<lparr>rec_r = rel, rec_connected = c, rec_r2 = Some q,
                            rec_other_connected = Some oc\<rparr>) ms)"
    unfolding second_hop_def ms_def Let_def by (rule refl)
  with assms show ?thesis by (cases "ms = []") auto
qed

lemma graph_query_paired:
  assumes "x \<in> set (graph_query g article_id)"
  shows "rec_r2 x = None \<or> rec_other_connected x \<noteq> None"
proof -
  from assms obtain a rel c where "x \<in> set (second_hop g a rel c)"
    unfolding graph_query_def by auto
  then show ?thesis by (rule second_hop_paired)
qed

lemma loop_body_paired:
  "rec_r2 x = None \<or> rec_other_connected x \<noteq> None \<Longrightarrow> \<exists>st'. loop_body lower st x = Inr st'"
  by (cases "rec_r2 x"; cases "rec_other_connected x")
     (simp_all add: loop_body_def Let_def add_second_edge_def)

lemma for_records_paired:
  "\<forall>x\<in>set result. rec_r2 x = None \<or> rec_other_connected x \<noteq> None \<Longrightarrow>
   \<exists>st'. for_records lower st result = Inr st'"
proof (induction result arbitrary: st)
  case Nil
  then show ?case by simp
next
  case (Cons x result)
  then obtain st1 where "loop_body lower st x = Inr st1"
    using loop_body_paired[of x lower st] by auto
  with Cons show ?case by simp
qed

lemma graph_route_answers:
  assumes "article_id \<noteq> []"
  shows "\<exists>ns es. get_article_graph lower (graph_session g) (PStr article_id) =
           ((JsonGraph ns es, 200), \<lparr>queries = [GraphQuery article_id], logged = []\<rparr>)"
proof -
  obtain st where "for_records lower init_state (graph_query g article_id) = Inr st"
    using for_records_paired[of "graph_query g article_id" lower init_state]
    by (auto dest: graph_query_paired)
  with assms show ?thesis
    by (simp add: get_article_graph_def handle_neo4j_exceptions_def get_article_graph_body_def
        graph_session_def no_effects_def)
qed

section \<open>The example stores, evaluated\<close>

lemmas example_defs = vest_def ana_def beograd_def unnamed_place_def bare_place_def pominje_def
  pominje_beograd_def posetila_def zivi_u_def rodjena_u_def objavljena_u_def povezan_def
  pominje_mesto_def u_blizini_def poznato_po_def

lemmas query_defs = graph_query_def second_hop_def is_article_def cy_where_def cy_prop_def
  py_get_def Let_def

lemmas loop_defs = loop_body_def add_connected_def add_first_edge_def add_connected2_def
  add_second_edge_def node_bool_def rel_bool_def first_label_def py_get_def init_state_def
  Let_def

lemmas route_defs = get_article_graph_def handle_neo4j_exceptions_def get_article_graph_body_def
  graph_session_def no_effects_def Let_def

lemma graph_query_demo:
  "graph_query store_demo ''4:db:0'' =
     [\<lparr>rec_r = pominje, rec_connected = ana, rec_r2 = Some posetila,
        rec_other_connected = Some beograd\<rparr>,
      \<lparr>rec_r = pominje, rec_connected = ana, rec_r2 = Some zivi_u,
        rec_other_connected = Some unnamed_place\<rparr>,
      \<lparr>rec_r = pominje_beograd, rec_connected = beograd, rec_r2 = None,
        rec_other_connected = None\<rparr>]"
  by (simp add: store_demo_def query_defs example_defs)

lemma graph_query_backlink:
  "graph_query store_backlink ''4:db:0'' =
     [\<lparr>rec_r = pominje, rec_connected = ana, rec_r2 = Some objavljena_u,
        rec_other_connected = Some vest\<rparr>]"
  by (simp add: store_backlink_def query_defs example_defs)

lemma graph_query_unnamed:
  "graph_query store_unnamed ''4:db:0'' =
     [\<lparr>rec_r = pominje, rec_connected = ana, rec_r2 = Some zivi_u,
        rec_other_connected = Some unnamed_place\<rparr>]"
  by (simp add: store_unnamed_def query_defs example_defs)

lemma graph_query_bare:
  "graph_query store_bare ''4:db:0'' =
     [\<lparr>rec_r = pominje, rec_connected = ana, rec_r2 = Some rodjena_u,
        rec_other_connected = Some bare_place\<rparr>]"
  by (simp add: store_bare_def query_defs example_defs)

lemma graph_query_selfref:
  "graph_query store_selfref ''4:db:0'' =
     [\<lparr>rec_r = povezan, rec_connected = vest, rec_r2 = None, rec_other_connected = None\<rparr>]"
  by (simp add: store_selfref_def query_defs example_defs)


lemma response_demo:
  "get_article_graph lower (graph_session store_demo) (PStr ''4:db:0'') =
     ((JsonGraph
         [\<lparr>node_id = ''4:db:1'', node_label = PStr ''Ana'', node_group = lower ''Osoba'',
            node_properties = [(''name'', PStr ''Ana'')]\<rparr>,
          \<lparr>node_id = ''4:db:2'', node_label = PStr ''Beograd'', node_group = lower ''Lokacija'',
            node_properties = [(''name'', PStr ''Beograd'')]\<rparr>,
          \<lparr>node_id = ''4:db:3'', node_label = PStr ''4:db:3'', node_group = lower ''Lokacija'',
            node_properties = [(''opis'', PStr ''grad'')]\<rparr>]
         [\<lparr>edge_from = ''4:db:1'', edge_to = ''4:db:1'', edge_label = ''POMINJE'',
            edge_properties = []\<rparr>,
          \<lparr>edge_from = ''4:db:1'', edge_to = ''4:db:2'', edge_label = ''POSETILA'',
            edge_properties = [(''article'', PStr ''Vest'')]\<rparr>,
          \<lparr>edge_from = ''4:db:1'', edge_to = ''4:db:1'', edge_label = ''POMINJE'',
            edge_properties = []\<rparr>,
          \<lparr>edge_from = ''4:db:1'', edge_to = ''4:db:3'', edge_label = ''ZIVI_U'',
            edge_properties = [(''article'', PStr ''Vest'')]\<rparr>,
          \<lparr>edge_from = ''4:db:2'', edge_to = ''4:db:2'', edge_label = ''POMINJE'',
            edge_properties = []\<rparr>], 200),
      \<lparr>queries = [GraphQuery ''4:db:0''], logged = []\<rparr>)"
  by (simp add: route_defs graph_query_demo) (simp add: loop_defs example_defs)

lemma response_backlink:
  "get_article_graph lower (graph_session store_backlink) (PStr ''4:db:0'') =
     ((JsonGraph
         [\<lparr>node_id = ''4:db:1'', node_label = PStr ''Ana'', node_group = lower ''Osoba'',
            node_properties = [(''name'', PStr ''Ana'')]\<rparr>,
          \<lparr>node_id = ''4:db:0'', node_label = PStr ''Vest'', node_group = lower ''Article'',
            node_properties = [(''title'', PStr ''Vest''), (''bias'', PStr ''Levo'')]\<rparr>]
         [\<lparr>edge_from = ''4:db:1'', edge_to = ''4:db:1'', edge_label = ''POMINJE'',
            edge_properties = []\<rparr>,
          \<lparr>edge_from = ''4:db:1'', edge_to = ''4:db:0'', edge_label = ''OBJAVLJENA_U'',
            edge_properties = [(''article'', PStr ''Vest'')]\<rparr>], 200),
      \<lparr>queries = [GraphQuery ''4:db:0''], logged = []\<rparr>)"
  by (simp add: route_defs graph_query_backlink) (simp add: loop_defs example_defs)

lemma response_unnamed:
  "get_article_graph lower (graph_session store_unnamed) (PStr ''4:db:0'') =
     ((JsonGraph
         [\<lparr>node_id = ''4:db:1'', node_label = PStr ''Ana'', node_group = lower ''Osoba'',
            node_properties = [(''name'', PStr ''Ana'')]\<rparr>,
          \<lparr>node_id = ''4:db:3'', node_label = PStr ''4:db:3'', node_group = lower ''Lokacija'',
            node_properties = [(''opis'', PStr ''grad'')]\<rparr>]
         [\<lparr>edge_from = ''4:db:1'', edge_to = ''4:db:1'', edge_label = ''POMINJE'',
            edge_properties = []\<rparr>,
          \<lparr>edge_from = ''4:db:1'', edge_to = ''4:db:3'', edge_label = ''ZIVI_U'',
            edge_properties = [(''article'', PStr ''Vest'')]\<rparr>], 200),
      \<lparr>queries = [GraphQuery ''4:db:0''], logged = []\<rparr>)"
  by (simp add: route_defs graph_query_unnamed) (simp add: loop_defs example_defs)

lemma response_bare:
  "get_article_graph lower (graph_session store_bare) (PStr ''4:db:0'') =
     ((JsonGraph
         [\<lparr>node_id = ''4:db:1'', node_label = PStr ''Ana'', node_group = lower ''Osoba'',
            node_properties = [(''name'', PStr ''Ana'')]\<rparr>]
         [\<lparr>edge_from = ''4:db:1'', edge_to = ''4:db:1'', edge_label = ''POMINJE'',
            edge_properties = []\<rparr>,
          \<lparr>edge_from = ''4:db:1'', edge_to = ''4:db:4'', edge_label = ''RODJENA_U'',
            edge_properties = [(''article'', PStr ''Vest'')]\<rparr>], 200),
      \<lparr>queries = [GraphQuery ''4:db:0''], logged = []\<rparr>)"
  by (simp add: route_defs graph_query_bare) (simp add: loop_defs example_defs)

lemma response_selfref:
  "get_article_graph lower (graph_session store_selfref) (PStr ''4:db:0'') =
     ((JsonGraph
         [\<lparr>node_id = ''4:db:0'', node_label = PStr ''Vest'', node_group = lower ''Article'',
            node_properties = [(''title'', PStr ''Vest''), (''bias'', PStr ''Levo'')]\<rparr>]
         [\<lparr>edge_from = ''4:db:0'', edge_to = ''4:db:0'', edge_label = ''POVEZAN'',
            edge_properties = []\<rparr>], 200),
      \<lparr>queries = [GraphQuery ''4:db:0''], logged = []\<rparr>)"
  by (simp add: route_defs graph_query_selfref) (simp add: loop_defs example_defs)


section \<open>Properties of the graph route\<close>

subsection \<open>Nodes\<close>

text \<open>
  C3: whenever the graph route answers with a graph, no identifier occurs twice in its
  \<^verbatim>\<open>nodes\<close> list, whatever the records were and however many of them, in either hop,
  carry the same node: the set \<^verbatim>\<open>node_ids\<close> is consulted and extended by both hops.
\<close>

theorem graph_nodes_distinct_ids:
  assumes "get_article_graph lower run article_id = ((JsonGraph ns es, code), eff)"
  shows "distinct (map node_id ns)"
proof -
  from graph_response_cases[OF assms] obtain result st
    where "for_records lower init_state result = Inr st" and "ns = nodes st" by blast
  with ids_inv_for_records[OF ids_inv_init] show ?thesis by (simp add: ids_inv_def)
qed

text \<open>
  On the demonstration store, Ana is the first-hop node of two records and Beograd is
  reached in both hops; each is listed once, under every lowering.
\<close>

theorem graph_nodes_distinct_ids_witness:
  "\<forall>lower.
     map node_id (body_nodes (fst (fst (get_article_graph lower (graph_session store_demo)
        (PStr ''4:db:0''))))) = [''4:db:1'', ''4:db:2'', ''4:db:3'']
     \<and> distinct (map node_id (body_nodes (fst (fst (get_article_graph lower
        (graph_session store_demo) (PStr ''4:db:0''))))))"
proof
  fix lower :: "string \<Rightarrow> string"
  from graph_nodes_distinct_ids[OF response_demo[of lower]]
  show "map node_id (body_nodes (fst (fst (get_article_graph lower (graph_session store_demo)
        (PStr ''4:db:0''))))) = [''4:db:1'', ''4:db:2'', ''4:db:3'']
     \<and> distinct (map node_id (body_nodes (fst (fst (get_article_graph lower
        (graph_session store_demo) (PStr ''4:db:0''))))))"
    by (simp add: response_demo)
qed

text \<open>Every listed node is the first-hop or second-hop node of some record.\<close>

lemma graph_nodes_come_from_rows:
  assumes "get_article_graph lower run article_id = ((JsonGraph ns es, code), eff)"
    and "run (str_value article_id) = Inr result"
    and "n \<in> set ns"
  shows "\<exists>x\<in>set result. node_id n = element_id (rec_connected x)
           \<or> (\<exists>c2. rec_other_connected x = Some c2 \<and> node_id n = element_id c2)"
proof -
  from graph_response_cases[OF assms(1)] assms(2) obtain st
    where f: "for_records lower init_state result = Inr st" and n: "ns = nodes st" by auto
  from for_records_nodes_from_rows[OF f] assms(3) n show ?thesis
    by (auto simp: init_fields)
qed

text \<open>
  C2: the anchor article is to stay out of \<^verbatim>\<open>nodes\<close> even when a second-hop
  relationship leads back to it. On a store where Ana, mentioned by the article, has a
  relationship back to the article that carries the article's title, the route lists the
  article itself as the second node.
\<close>

theorem anchor_listed_as_node:
  "is_article vest \<and> element_id vest = ''4:db:0''
   \<and> (\<forall>lower.
         map node_id (body_nodes (fst (fst (get_article_graph lower (graph_session store_backlink)
           (PStr ''4:db:0''))))) = [''4:db:1'', ''4:db:0''])"
  by (simp add: response_backlink is_article_def vest_def)

text \<open>
  The labels the two hops give a node that has neither \<^verbatim>\<open>name\<close> nor \<^verbatim>\<open>title\<close>, and the
  group of a node without labels: the lower-cased \<open>Entity\<close>, in either hop.
\<close>

lemma first_hop_fallback_label:
  assumes "node_bool c" and "element_id c \<notin> node_ids st"
    and "map_of (properties c) ''name'' = None" and "map_of (properties c) ''title'' = None"
  shows "nodes (add_connected lower st c) =
           nodes st @ [\<lparr>node_id = element_id c,
                         node_label = PStr (lower (first_label c) @ '' '' @ element_id c),
                         node_group = lower (first_label c),
                         node_properties = properties c\<rparr>]"
  using assms by (simp add: add_connected_def py_get_def Let_def)

lemma second_hop_fallback_label:
  assumes "node_bool c2" and "element_id c2 \<notin> node_ids st"
    and "map_of (properties c2) ''name'' = None" and "map_of (properties c2) ''title'' = None"
  shows "nodes (add_connected2 lower st (Some c2)) =
           nodes st @ [\<lparr>node_id = element_id c2,
                         node_label = PStr (element_id c2),
                         node_group = lower (first_label c2),
                         node_properties = properties c2\<rparr>]"
  using assms by (simp add: add_connected2_def py_get_def)

lemma unlabelled_group:
  assumes "labels c = []"
  shows "first_label c = ''Entity''"
    and "node_bool c \<Longrightarrow> element_id c \<notin> node_ids st \<Longrightarrow>
         map node_group (nodes (add_connected lower st c))
           = map node_group (nodes st) @ [lower ''Entity'']"
    and "node_bool c \<Longrightarrow> element_id c \<notin> node_ids st \<Longrightarrow>
         map node_group (nodes (add_connected2 lower st (Some c)))
           = map node_group (nodes st) @ [lower ''Entity'']"
  using assms by (simp_all add: first_label_def add_connected_def add_connected2_def Let_def)

text \<open>
  C4: a node without \<^verbatim>\<open>name\<close> and \<^verbatim>\<open>title\<close> is to be labelled with its lower-cased first
  label, a space and its identifier, in either hop. The place Ana lives in has neither
  property and is reached in the second hop; its label is to be the lower-cased
  \<open>Lokacija\<close>, a space and \<open>4:db:3\<close>, and the route labels it with the bare identifier,
  which is another string under every lowering.
\<close>

theorem second_hop_label_omits_type:
  "map_of (properties unnamed_place) ''name'' = None
   \<and> map_of (properties unnamed_place) ''title'' = None
   \<and> first_label unnamed_place = ''Lokacija'' \<and> element_id unnamed_place = ''4:db:3''
   \<and> (\<forall>lower.
         map node_label (body_nodes (fst (fst (get_article_graph lower
           (graph_session store_unnamed) (PStr ''4:db:0''))))) = [PStr ''Ana'', PStr ''4:db:3'']
         \<and> PStr (lower (first_label unnamed_place) @ '' '' @ element_id unnamed_place)
             \<noteq> PStr ''4:db:3'')"
proof -
  have "lower ''Lokacija'' @ '' 4:db:3'' \<noteq> ''4:db:3''" for lower :: "string \<Rightarrow> string"
  proof
    assume "lower ''Lokacija'' @ '' 4:db:3'' = ''4:db:3''"
    then have "length (lower ''Lokacija'' @ '' 4:db:3'') = length ''4:db:3''" by (rule arg_cong)
    then show False by simp
  qed
  then show ?thesis
    by (simp add: response_unnamed unnamed_place_def first_label_def)
qed

subsection \<open>Edges\<close>

text \<open>
  The first-hop edge of a record whose relationship has a type and whose node passes the
  truth test is the loop at that node, and every edge of the response leaves the
  first-hop node of some record and enters a node of that record.
\<close>

lemma first_hop_edge_is_self_loop:
  assumes "get_article_graph lower run article_id = ((JsonGraph ns es, code), eff)"
    and "run (str_value article_id) = Inr result"
    and "x \<in> set result"
    and "rel_type (rec_r x) \<noteq> []"
    and "node_bool (rec_connected x)"
  shows "\<lparr>edge_from = element_id (rec_connected x), edge_to = element_id (rec_connected x),
          edge_label = rel_type (rec_r x), edge_properties = rel_properties (rec_r x)\<rparr>
         \<in> set es
       \<and> (\<forall>e\<in>set es. \<exists>y\<in>set result.
             edge_from e = element_id (rec_connected y)
             \<and> (edge_to e = element_id (rec_connected y)
                \<or> (\<exists>c2. rec_other_connected y = Some c2 \<and> edge_to e = element_id c2)))"
proof -
  from graph_response_cases[OF assms(1)] assms(2) obtain st
    where f: "for_records lower init_state result = Inr st" and "es = edges st" by auto
  then have es: "es = concat (map record_edges result)"
    by (simp add: for_records_edges init_fields)
  from first_hop_edge_in_record_edges[OF assms(4,5)] assms(3)
  have a: "\<lparr>edge_from = element_id (rec_connected x), edge_to = element_id (rec_connected x),
          edge_label = rel_type (rec_r x), edge_properties = rel_properties (rec_r x)\<rparr>
         \<in> set es"
    unfolding es first_hop_edge_def by auto
  have b: "\<forall>e\<in>set es. \<exists>y\<in>set result.
             edge_from e = element_id (rec_connected y)
             \<and> (edge_to e = element_id (rec_connected y)
                \<or> (\<exists>c2. rec_other_connected y = Some c2 \<and> edge_to e = element_id c2))"
  proof
    fix e assume "e \<in> set es"
    then obtain y where y: "y \<in> set result" "e \<in> set (record_edges y)"
      unfolding es by auto
    from record_edges_endpoints[OF y(2)] y(1)
    show "\<exists>y\<in>set result.
             edge_from e = element_id (rec_connected y)
             \<and> (edge_to e = element_id (rec_connected y)
                \<or> (\<exists>c2. rec_other_connected y = Some c2 \<and> edge_to e = element_id c2))"
      by blast
  qed
  from a b show ?thesis by (rule conjI)
qed

lemma first_hop_edge_is_self_loop_example:
  "\<lparr>rec_r = pominje, rec_connected = ana, rec_r2 = Some posetila,
     rec_other_connected = Some beograd\<rparr> \<in> set (graph_query store_demo ''4:db:0'')
   \<and> rel_type pominje \<noteq> [] \<and> node_bool ana
   \<and> \<lparr>edge_from = element_id ana, edge_to = element_id ana, edge_label = rel_type pominje,
        edge_properties = rel_properties pominje\<rparr>
       \<in> set (body_edges (fst (fst (get_article_graph lower (graph_session store_demo)
            (PStr ''4:db:0'')))))"
proof -
  let ?x = "\<lparr>rec_r = pominje, rec_connected = ana, rec_r2 = Some posetila,
     rec_other_connected = Some beograd\<rparr>"
  have r: "graph_session store_demo (str_value (PStr ''4:db:0'')) =
             Inr (graph_query store_demo ''4:db:0'')"
    by (simp add: graph_session_def)
  have m: "?x \<in> set (graph_query store_demo ''4:db:0'')"
    by (simp add: graph_query_demo)
  have t: "rel_type (rec_r ?x) \<noteq> []" by (simp add: pominje_def)
  have b: "node_bool (rec_connected ?x)" by (simp add: node_bool_def ana_def)
  from first_hop_edge_is_self_loop[OF response_demo r m t b] m t b
  show ?thesis unfolding response_demo by simp
qed

text \<open>
  C1: the first-hop edge is the loop at the connected node, and the anchor article's
  identifier is to be the endpoint of no edge. On the store with the relationship back to
  the article, the second edge enters the article; on a store whose article is related
  to itself, the first-hop loop sits at the article.
\<close>

theorem anchor_is_edge_endpoint:
  "is_article vest \<and> element_id vest = ''4:db:0''
   \<and> (\<forall>lower.
         map edge_from (body_edges (fst (fst (get_article_graph lower
           (graph_session store_backlink) (PStr ''4:db:0''))))) = [''4:db:1'', ''4:db:1'']
         \<and> map edge_to (body_edges (fst (fst (get_article_graph lower
           (graph_session store_backlink) (PStr ''4:db:0''))))) = [''4:db:1'', ''4:db:0'']
         \<and> map edge_to (body_edges (fst (fst (get_article_graph lower
           (graph_session store_selfref) (PStr ''4:db:0''))))) = [''4:db:0''])"
  by (simp add: response_backlink response_selfref is_article_def vest_def)




text \<open>
  When every node of every record passes the truth test, each edge endpoint is the
  identifier of a listed node.
\<close>

lemma graph_edges_reference_nodes_when_truthy:
  assumes "get_article_graph lower run article_id = ((JsonGraph ns es, code), eff)"
    and "run (str_value article_id) = Inr result"
    and "\<forall>x\<in>set result. node_bool (rec_connected x)
           \<and> (\<forall>c2. rec_other_connected x = Some c2 \<longrightarrow> node_bool c2)"
  shows "\<forall>e\<in>set es. edge_from e \<in> node_id ` set ns \<and> edge_to e \<in> node_id ` set ns"
proof -
  from graph_response_cases[OF assms(1)] assms(2) obtain st
    where f: "for_records lower init_state result = Inr st" and n: "ns = nodes st" and e: "es = edges st"
    by auto
  have "edges_closed init_state" by (simp add: edges_closed_def init_fields)
  from edges_closed_for_records[OF this f assms(3)] have "edges_closed st" .
  moreover from ids_inv_for_records[OF ids_inv_init f] have "node_ids st = node_id ` set (nodes st)"
    by (simp add: ids_inv_def)
  ultimately show ?thesis using n e by (simp add: edges_closed_def)
qed

text \<open>
  C10: every identifier in an edge's \<^verbatim>\<open>from\<close> or \<^verbatim>\<open>to\<close> is to be the \<^verbatim>\<open>id\<close> of a listed
  node. The place Ana was born in has no property at all, so the truth test of line 177
  fails and the node is not listed, while line 186 tests only the relationship: the
  second edge enters an identifier that \<^verbatim>\<open>nodes\<close> does not hold.
\<close>

theorem edge_endpoint_not_among_nodes:
  "\<forall>lower.
     map node_id (body_nodes (fst (fst (get_article_graph lower (graph_session store_bare)
        (PStr ''4:db:0''))))) = [''4:db:1'']
     \<and> map edge_to (body_edges (fst (fst (get_article_graph lower (graph_session store_bare)
        (PStr ''4:db:0''))))) = [''4:db:1'', ''4:db:4'']"
  by (simp add: response_bare)

section \<open>Validation and errors of the two JSON routes\<close>

text \<open>
  C6: a malformed identifier, empty or not a string, makes both routes answer 400 with
  the body \<^verbatim>\<open>{"error": "Invalid article ID"}\<close>, whatever the store would do: no query is
  sent and nothing is logged.
\<close>

theorem malformed_id_rejected_before_query:
  assumes "article_id = PStr [] \<or> \<not> isinstance_str article_id"
  shows "get_article_graph lower run article_id =
           ((JsonError ''Invalid article ID'', 400), \<lparr>queries = [], logged = []\<rparr>)
       \<and> get_article_content run' article_id =
           ((JsonError ''Invalid article ID'', 400), \<lparr>queries = [], logged = []\<rparr>)"
  using assms
  by (auto simp: get_article_graph_def get_article_content_def handle_neo4j_exceptions_def
      get_article_graph_body_def get_article_content_body_def no_effects_def)

theorem malformed_id_rejected_before_query_witness:
  "(PInt 7 = PStr [] \<or> \<not> isinstance_str (PInt 7))
   \<and> (\<forall>lower. get_article_graph lower (\<lambda>a. Inl (Neo4jError ''down'')) (PInt 7) =
        ((JsonError ''Invalid article ID'', 400), \<lparr>queries = [], logged = []\<rparr>))
   \<and> get_article_content (\<lambda>a. Inr [vest]) (PInt 7) =
        ((JsonError ''Invalid article ID'', 400), \<lparr>queries = [], logged = []\<rparr>)"
proof -
  have a: "PInt 7 = PStr [] \<or> \<not> isinstance_str (PInt 7)" by simp
  from malformed_id_rejected_before_query[OF a] a show ?thesis by blast
qed

text \<open>
  C7: when the store raises on the query of a well-formed identifier, both routes
  answer 500 with the body \<^verbatim>\<open>{"error": "Database error occurred"}\<close>; the response is the
  same for every error, whose text goes to the log only.
\<close>

theorem store_error_gives_generic_500:
  assumes "truthy article_id" and "isinstance_str article_id"
    and "run (str_value article_id) = Inl e" and "run' (str_value article_id) = Inl e'"
  shows "get_article_graph lower run article_id =
           ((JsonError ''Database error occurred'', 500),
            \<lparr>queries = [GraphQuery (str_value article_id)],
             logged = [''Neo4j error: '' @ str_exn e]\<rparr>)
       \<and> get_article_content run' article_id =
           ((JsonError ''Database error occurred'', 500),
            \<lparr>queries = [ContentQuery (str_value article_id)],
             logged = [''Neo4j error: '' @ str_exn e']\<rparr>)"
  using assms
  by (simp add: get_article_graph_def get_article_content_def handle_neo4j_exceptions_def
      get_article_graph_body_def get_article_content_body_def no_effects_def Let_def)

theorem store_error_gives_generic_500_witness:
  "truthy (PStr ''4:db:0'') \<and> isinstance_str (PStr ''4:db:0'')
   \<and> (\<forall>lower. fst (get_article_graph lower (\<lambda>a. Inl (Neo4jError ''ServiceUnavailable''))
          (PStr ''4:db:0'')) =
        (JsonError ''Database error occurred'', 500))
   \<and> fst (get_article_content (\<lambda>a. Inl (Neo4jError ''SessionExpired'')) (PStr ''4:db:0'')) =
        (JsonError ''Database error occurred'', 500)"
proof -
  have a: "truthy (PStr ''4:db:0'')" and b: "isinstance_str (PStr ''4:db:0'')" by simp_all
  have c: "(\<lambda>a. Inl (Neo4jError ''ServiceUnavailable'') :: exn + row list)
             (str_value (PStr ''4:db:0'')) = Inl (Neo4jError ''ServiceUnavailable'')"
    and d: "(\<lambda>a. Inl (Neo4jError ''SessionExpired'') :: exn + node list)
             (str_value (PStr ''4:db:0'')) = Inl (Neo4jError ''SessionExpired'')"
    by simp_all
  from store_error_gives_generic_500[OF a b c d] a b show ?thesis by simp
qed

text \<open>
  C5: when the content query of a well-formed identifier finds no article, the content
  route answers 404 with the body \<^verbatim>\<open>{"error": "Article not found"}\<close>, after that one
  query and without a log line.
\<close>

theorem content_unknown_id_not_found:
  assumes "article_id \<noteq> []" and "run article_id = Inr []"
  shows "get_article_content run (PStr article_id) =
           ((JsonError ''Article not found'', 404),
            \<lparr>queries = [ContentQuery article_id], logged = []\<rparr>)"
  using assms
  by (simp add: get_article_content_def handle_neo4j_exceptions_def
      get_article_content_body_def no_effects_def single_def)

theorem content_unknown_id_not_found_witness:
  "''4:db:9'' \<noteq> []
   \<and> get_article_content (\<lambda>a. if a = ''4:db:0'' then Inr [vest] else Inr []) (PStr ''4:db:9'') =
        ((JsonError ''Article not found'', 404),
         \<lparr>queries = [ContentQuery ''4:db:9''], logged = []\<rparr>)"
proof -
  have "get_article_content (\<lambda>a. if a = ''4:db:0'' then Inr [vest] else Inr []) (PStr ''4:db:9'') =
        ((JsonError ''Article not found'', 404),
         \<lparr>queries = [ContentQuery ''4:db:9''], logged = []\<rparr>)"
    using content_unknown_id_not_found
      [of "''4:db:9''" "\<lambda>a. if a = ''4:db:0'' then Inr [vest] else Inr []"]
    by simp
  then show ?thesis by simp
qed

section \<open>Properties of the index route\<close>

lemma map_of_dict_set: "map_of (dict_set k v d) = (map_of d)(k \<mapsto> v)"
  by (induction d) (auto simp: fun_eq_iff)

lemma map_of_group_record:
  "map_of (group_record d record) =
     (map_of d)(py_or (rec_bias record) (PStr ''Nepoznat bias'') \<mapsto>
        dict_set (py_or (rec_source record) (PStr ''Nepoznat izvor''))
          (map (article_dict (py_or (rec_source record) (PStr ''Nepoznat izvor''))
                  (py_or (rec_bias record) (PStr ''Nepoznat bias''))) (rec_articles record))
          (case map_of d (py_or (rec_bias record) (PStr ''Nepoznat bias'')) of
             None \<Rightarrow> [] | Some sd \<Rightarrow> sd))"
  by (cases "map_of d (py_or (rec_bias record) (PStr ''Nepoznat bias''))")
     (simp_all add: group_record_def Let_def map_of_dict_set)

lemma has_group_new:
  "has_group (group_record d record) (py_or (rec_bias record) (PStr ''Nepoznat bias''))
     (py_or (rec_source record) (PStr ''Nepoznat izvor''))"
  by (simp add: has_group_def map_of_group_record map_of_dict_set)

lemma has_group_kept: "has_group d b s \<Longrightarrow> has_group (group_record d record) b s"
  by (auto simp: has_group_def map_of_group_record map_of_dict_set split: option.splits)

lemma has_group_records_kept: "has_group d b s \<Longrightarrow> has_group (group_records d result) b s"
  by (induction result arbitrary: d) (auto intro: has_group_kept)

lemma has_group_records:
  "record \<in> set result \<Longrightarrow>
   has_group (group_records d result) (py_or (rec_bias record) (PStr ''Nepoznat bias''))
     (py_or (rec_source record) (PStr ''Nepoznat izvor''))"
proof (induction result arbitrary: d)
  case Nil
  then show ?case by simp
next
  case (Cons x result)
  show ?case
  proof (cases "record = x")
    case True
    then show ?thesis by (simp add: has_group_records_kept has_group_new)
  next
    case False
    with Cons.prems have "record \<in> set result" by simp
    then show ?thesis by (simp add: Cons.IH)
  qed
qed

lemma slug_Inr:
  "slug lower v = Inr i \<Longrightarrow> \<exists>name. v = PStr name \<and> i = str_replace CHR '' '' CHR ''-'' (lower name)"
  by (cases v) (auto simp: slug_def)

lemma source_list_of_names:
  "source_list_of lower sd = Inr ss \<Longrightarrow> map sg_name ss = map fst sd"
  by (induction sd arbitrary: ss) (auto split: sum.splits)

lemma source_list_of_slugs:
  "source_list_of lower sd = Inr ss \<Longrightarrow> x \<in> set ss \<Longrightarrow> slug lower (sg_name x) = Inr (sg_id x)"
  by (induction sd arbitrary: ss) (auto split: sum.splits)

lemma groups_of_Inr_slug:
  "groups_of lower d = Inr gs \<Longrightarrow> g \<in> set gs \<Longrightarrow>
   slug lower (bg_name g) = Inr (bg_id g)
     \<and> (\<forall>x\<in>set (bg_sources g). slug lower (sg_name x) = Inr (sg_id x))"
  by (induction d arbitrary: gs) (auto split: sum.splits simp: source_list_of_slugs)

lemma groups_of_Inr_mem:
  "groups_of lower d = Inr gs \<Longrightarrow> (k, sd) \<in> set d \<Longrightarrow>
   \<exists>g\<in>set gs. bg_name g = k \<and> map sg_name (bg_sources g) = map fst sd"
  by (induction d arbitrary: gs) (auto split: sum.splits simp: source_list_of_names)

lemma index_page_cases:
  assumes "index lower (Inr result) = ((IndexPage groups, code), lg)"
  shows "groups_of lower (group_records [] result) = Inr groups"
  using assms by (auto simp: index_def split: sum.splits)

lemma index_demo:
  "index lower (Inr demo_records) = ((IndexPage (demo_groups lower), 200), [])"
  apply (simp add: index_def demo_records_def demo_groups_def group_record_def py_or_def Let_def)
  apply (simp add: slug_def)
  done

text \<open>
  The identifier of a group whose name the lowering maps as the ASCII letters are
  mapped.
\<close>

lemma slug_danas_online:
  assumes "lower ''Danas Online'' = ''danas online''"
  shows "slug lower (PStr ''Danas Online'') = Inr ''danas-online''"
  using assms by (simp add: slug_def str_replace_def)

text \<open>
  C9, with the labels the source uses: whenever the index route renders its page, every
  group and every source group has a string name and carries as identifier that name
  lower-cased, by whatever mapping \<^verbatim>\<open>str.lower()\<close> applies, with spaces replaced by
  hyphens; and every record of the query has its group and source group, named by its
  \<^verbatim>\<open>bias\<close> and \<^verbatim>\<open>source\<close>, or by \<open>Nepoznat bias\<close> and \<open>Nepoznat izvor\<close> where the attribute is
  missing.
\<close>

theorem index_sentinels_and_slugs:
  assumes "index lower (Inr result) = ((IndexPage groups, code), lg)"
  shows "(\<forall>g\<in>set groups.
            (\<exists>name. bg_name g = PStr name
               \<and> bg_id g = str_replace CHR '' '' CHR ''-'' (lower name))
          \<and> (\<forall>s\<in>set (bg_sources g).
                \<exists>name. sg_name s = PStr name
                  \<and> sg_id s = str_replace CHR '' '' CHR ''-'' (lower name)))
       \<and> (\<forall>record\<in>set result.
            \<exists>g\<in>set groups. \<exists>s\<in>set (bg_sources g).
              bg_name g = py_or (rec_bias record) (PStr ''Nepoznat bias'')
              \<and> sg_name s = py_or (rec_source record) (PStr ''Nepoznat izvor'')
              \<and> (rec_bias record = PNone \<longrightarrow> bg_name g = PStr ''Nepoznat bias'')
              \<and> (rec_source record = PNone \<longrightarrow> sg_name s = PStr ''Nepoznat izvor''))"
proof (intro conjI ballI)
  note g = index_page_cases[OF assms]
  fix x assume x: "x \<in> set groups"
  with groups_of_Inr_slug[OF g] have "slug lower (bg_name x) = Inr (bg_id x)" by blast
  then show "\<exists>name. bg_name x = PStr name \<and> bg_id x = str_replace CHR '' '' CHR ''-'' (lower name)"
    by (rule slug_Inr)
  fix s assume "s \<in> set (bg_sources x)"
  with groups_of_Inr_slug[OF g] x have "slug lower (sg_name s) = Inr (sg_id s)" by blast
  then show "\<exists>name. sg_name s = PStr name \<and> sg_id s = str_replace CHR '' '' CHR ''-'' (lower name)"
    by (rule slug_Inr)
next
  note g = index_page_cases[OF assms]
  fix y assume "y \<in> set result"
  let ?b = "py_or (rec_bias y) (PStr ''Nepoznat bias'')"
  let ?s = "py_or (rec_source y) (PStr ''Nepoznat izvor'')"
  from \<open>y \<in> set result\<close> have "has_group (group_records [] result) ?b ?s"
    by (rule has_group_records)
  then obtain sd where sd: "map_of (group_records [] result) ?b = Some sd"
    and s: "map_of sd ?s \<noteq> None"
    by (auto simp: has_group_def split: option.splits)
  from sd have "(?b, sd) \<in> set (group_records [] result)" by (rule map_of_SomeD)
  with groups_of_Inr_mem[OF g] obtain gr where gr: "gr \<in> set groups" "bg_name gr = ?b"
    "map sg_name (bg_sources gr) = map fst sd" by blast
  from s have "?s \<in> fst ` set sd" by (simp add: map_of_eq_None_iff)
  then have "?s \<in> set (map sg_name (bg_sources gr))" using gr(3) by simp
  then obtain sg where sg: "sg \<in> set (bg_sources gr)" "sg_name sg = ?s" by auto
  have b: "rec_bias y = PNone \<longrightarrow> ?b = PStr ''Nepoznat bias''"
    and c: "rec_source y = PNone \<longrightarrow> ?s = PStr ''Nepoznat izvor''"
    by (simp_all add: py_or_def)
  show "\<exists>g\<in>set groups. \<exists>s\<in>set (bg_sources g).
              bg_name g = ?b \<and> sg_name s = ?s
              \<and> (rec_bias y = PNone \<longrightarrow> bg_name g = PStr ''Nepoznat bias'')
              \<and> (rec_source y = PNone \<longrightarrow> sg_name s = PStr ''Nepoznat izvor'')"
    using gr(1,2) sg b c by (intro bexI[of _ gr] bexI[of _ sg]) simp_all
qed

text \<open>
  On the demonstration records the page is rendered; the record without \<^verbatim>\<open>bias\<close> and
  \<^verbatim>\<open>source\<close> has its group and source group under the two labels, each with the
  identifier made of its lower-cased name.
\<close>

theorem index_sentinels_and_slugs_witness:
  "\<forall>lower.
     index lower (Inr demo_records) = ((IndexPage (demo_groups lower), 200), [])
     \<and> (\<exists>g\<in>set (demo_groups lower). \<exists>s\<in>set (bg_sources g).
           bg_name g = PStr ''Nepoznat bias''
           \<and> bg_id g = str_replace CHR '' '' CHR ''-'' (lower ''Nepoznat bias'')
           \<and> sg_name s = PStr ''Nepoznat izvor''
           \<and> sg_id s = str_replace CHR '' '' CHR ''-'' (lower ''Nepoznat izvor''))"
proof
  fix lower :: "string \<Rightarrow> string"
  note t = index_sentinels_and_slugs[OF index_demo[of lower]]
  let ?r = "\<lparr>rec_bias = PNone, rec_source = PNone, rec_articles = [vest]\<rparr>"
  have m: "?r \<in> set demo_records" by (simp add: demo_records_def)
  from t[THEN conjunct2, rule_format, OF m]
  obtain g s where g: "g \<in> set (demo_groups lower)" and s: "s \<in> set (bg_sources g)"
    and n: "bg_name g = PStr ''Nepoznat bias''" "sg_name s = PStr ''Nepoznat izvor''"
    by (auto simp: py_or_def)
  from t[THEN conjunct1, rule_format, OF g]
  have a: "\<exists>name. bg_name g = PStr name
             \<and> bg_id g = str_replace CHR '' '' CHR ''-'' (lower name)"
    and b: "\<forall>s\<in>set (bg_sources g). \<exists>name. sg_name s = PStr name
             \<and> sg_id s = str_replace CHR '' '' CHR ''-'' (lower name)"
    by simp_all
  from a n(1) have i: "bg_id g = str_replace CHR '' '' CHR ''-'' (lower ''Nepoznat bias'')"
    by auto
  from b[rule_format, OF s] n(2)
  have j: "sg_id s = str_replace CHR '' '' CHR ''-'' (lower ''Nepoznat izvor'')"
    by auto
  from g s n i j have "\<exists>g\<in>set (demo_groups lower). \<exists>s\<in>set (bg_sources g).
         bg_name g = PStr ''Nepoznat bias''
         \<and> bg_id g = str_replace CHR '' '' CHR ''-'' (lower ''Nepoznat bias'')
         \<and> sg_name s = PStr ''Nepoznat izvor''
         \<and> sg_id s = str_replace CHR '' '' CHR ''-'' (lower ''Nepoznat izvor'')"
    by (intro bexI[of _ g] bexI[of _ s]) simp_all
  with index_demo[of lower]
  show "index lower (Inr demo_records) = ((IndexPage (demo_groups lower), 200), [])
     \<and> (\<exists>g\<in>set (demo_groups lower). \<exists>s\<in>set (bg_sources g).
           bg_name g = PStr ''Nepoznat bias''
           \<and> bg_id g = str_replace CHR '' '' CHR ''-'' (lower ''Nepoznat bias'')
           \<and> sg_name s = PStr ''Nepoznat izvor''
           \<and> sg_id s = str_replace CHR '' '' CHR ''-'' (lower ''Nepoznat izvor''))"
    by (rule conjI)
qed

text \<open>
  The labels of a record without \<^verbatim>\<open>bias\<close> and \<^verbatim>\<open>source\<close> are \<open>Nepoznat bias\<close> and
  \<open>Nepoznat izvor\<close>, not the English phrases \<open>unknown bias\<close> and \<open>unknown source\<close>.
\<close>

theorem sentinel_labels_are_not_english:
  "\<forall>lower.
     map bg_name (page_groups (fst (fst (index lower (Inr
        [\<lparr>rec_bias = PNone, rec_source = PNone, rec_articles = [vest]\<rparr>])))))
       = [PStr ''Nepoznat bias'']
     \<and> map (\<lambda>g. map sg_name (bg_sources g)) (page_groups (fst (fst (index lower (Inr
        [\<lparr>rec_bias = PNone, rec_source = PNone, rec_articles = [vest]\<rparr>])))))
       = [[PStr ''Nepoznat izvor'']]
     \<and> PStr ''Nepoznat bias'' \<noteq> PStr ''unknown bias''
     \<and> PStr ''Nepoznat izvor'' \<noteq> PStr ''unknown source''"
  by (simp add: index_def group_record_def py_or_def slug_def Let_def)

end
